theory Spec2Isabelle
  imports Complex_Main "HOL-Library.Sublist" "HOL-Library.Multiset"
begin

section \<open>Strings\<close>

text \<open>
  A Python \<^verbatim>\<open>str\<close> is modelled as a \<^typ>\<open>string\<close>; a \<^typ>\<open>char\<close> stands for
  one code point below 256 (ASCII and Latin-1). On this range \<^verbatim>\<open>str.lower\<close> works
  character by character: it maps A-Z and the accented capitals 0xC0-0xDE (without the
  multiplication sign 0xD7) to the code point 32 above and leaves every other code
  point alone.
\<close>

definition upper_chars :: "char list" where
  "upper_chars =
     ''ABCDEFGHIJKLMNOPQRSTUVWXYZ''
     @ [CHR 0xC0, CHR 0xC1, CHR 0xC2, CHR 0xC3, CHR 0xC4, CHR 0xC5, CHR 0xC6, CHR 0xC7,
        CHR 0xC8, CHR 0xC9, CHR 0xCA, CHR 0xCB, CHR 0xCC, CHR 0xCD, CHR 0xCE, CHR 0xCF,
        CHR 0xD0, CHR 0xD1, CHR 0xD2, CHR 0xD3, CHR 0xD4, CHR 0xD5, CHR 0xD6, CHR 0xD8,
        CHR 0xD9, CHR 0xDA, CHR 0xDB, CHR 0xDC, CHR 0xDD, CHR 0xDE]"

definition lower_chars :: "char list" where
  "lower_chars =
     ''abcdefghijklmnopqrstuvwxyz''
     @ [CHR 0xE0, CHR 0xE1, CHR 0xE2, CHR 0xE3, CHR 0xE4, CHR 0xE5, CHR 0xE6, CHR 0xE7,
        CHR 0xE8, CHR 0xE9, CHR 0xEA, CHR 0xEB, CHR 0xEC, CHR 0xED, CHR 0xEE, CHR 0xEF,
        CHR 0xF0, CHR 0xF1, CHR 0xF2, CHR 0xF3, CHR 0xF4, CHR 0xF5, CHR 0xF6, CHR 0xF8,
        CHR 0xF9, CHR 0xFA, CHR 0xFB, CHR 0xFC, CHR 0xFD, CHR 0xFE]"

definition lower_char :: "char \<Rightarrow> char" where
  "lower_char c = (case map_of (zip upper_chars lower_chars) c of None \<Rightarrow> c | Some l \<Rightarrow> l)"

definition lower :: "string \<Rightarrow> string" where
  "lower s = map lower_char s"

text \<open>\<^verbatim>\<open>sub in s\<close> on strings: \<open>sub\<close> occurs in \<open>s\<close> as a contiguous block.\<close>

fun contains :: "string \<Rightarrow> string \<Rightarrow> bool" where
  "contains sub [] = (sub = [])"
| "contains sub (c # cs) = (prefix sub (c # cs) \<or> contains sub cs)"

text \<open>\<^verbatim>\<open>s.replace(a, b)\<close> for one-character \<open>a\<close> and \<open>b\<close>.\<close>

definition replace :: "char \<Rightarrow> char \<Rightarrow> string \<Rightarrow> string" where
  "replace a b s = map (\<lambda>c. if c = a then b else c) s"

text \<open>The code points below 256 that \<^verbatim>\<open>str.strip()\<close> removes.\<close>

definition is_space :: "char \<Rightarrow> bool" where
  "is_space c = ((of_char c :: nat) \<in> {9, 10, 11, 12, 13, 28, 29, 30, 31, 32, 133, 160})"

definition strip :: "string \<Rightarrow> string" where
  "strip s = rev (dropWhile is_space (rev (dropWhile is_space s)))"

text \<open>
  \<^verbatim>\<open>int(s)\<close> on a string of decimal digits, the only strings the parser passes to it.
  Python's integers are unbounded, so the result is an \<^typ>\<open>int\<close>; the interpreter's
  configurable limit on the number of digits is not modelled.
\<close>

definition py_int :: "string \<Rightarrow> int" where
  "py_int s = foldl (\<lambda>n c. 10 * n + (int (of_char c) - 48)) 0 s"

section \<open>Regular expressions\<close>

text \<open>
  The constructs of Python's \<^verbatim>\<open>re\<close> that the patterns of the source use: a literal
  character, \<^verbatim>\<open>.\<close>, a character class, sequence, alternation, the greedy star, the
  lazy star, a capturing group, \<^verbatim>\<open>\b\<close> and \<^verbatim>\<open>$\<close>. \<^verbatim>\<open>r+\<close> is \<^verbatim>\<open>rr*\<close> and
  \<^verbatim>\<open>r+?\<close> is \<^verbatim>\<open>rr*?\<close>.
\<close>

datatype rx =
    Chr char
  | Dot
  | Cls "char list"
  | Eps
  | Seq rx rx
  | Alt rx rx
  | Star rx
  | StarLazy rx
  | Grp rx
  | WordB
  | Eos

text \<open>\<^verbatim>\<open>\w\<close> on code points below 256: letters, digits (also the superscripts and
  fractions of Latin-1) and the underscore.\<close>

definition is_word :: "char \<Rightarrow> bool" where
  "is_word c =
     (let n = (of_char c :: nat)
      in (48 \<le> n \<and> n \<le> 57) \<or> (65 \<le> n \<and> n \<le> 90) \<or> n = 95 \<or> (97 \<le> n \<and> n \<le> 122)
         \<or> n \<in> {170, 178, 179, 181, 185, 186, 188, 189, 190}
         \<or> (192 \<le> n \<and> n \<le> 214) \<or> (216 \<le> n \<and> n \<le> 246) \<or> (248 \<le> n \<and> n \<le> 255))"

definition newline :: char where
  "newline = CHR 0x0A"

text \<open>
  A matcher state: the groups captured so far, the character before the current
  position (None at the start of the text) and the text still to read.
\<close>

type_synonym mstate = "string list \<times> char option \<times> string"

definition word_before :: "char option \<Rightarrow> bool" where
  "word_before p = (case p of None \<Rightarrow> False | Some c \<Rightarrow> is_word c)"

definition word_after :: "string \<Rightarrow> bool" where
  "word_after s = (case s of [] \<Rightarrow> False | c # _ \<Rightarrow> is_word c)"

text \<open>
  \<open>rmatch ic r st\<close> lists every way \<open>r\<close> can match at state \<open>st\<close>, as the states
  reached, in the order in which the backtracking matcher of \<^verbatim>\<open>re\<close> tries them: the
  head of the list is the match Python reports. \<open>ic\<close> is the flag \<^verbatim>\<open>(?i)\<close>. A star
  stops repeating a body that matched the empty string.
\<close>

function rmatch :: "bool \<Rightarrow> rx \<Rightarrow> mstate \<Rightarrow> mstate list" where
  "rmatch ic (Chr a) (g, p, s) =
     (case s of [] \<Rightarrow> []
      | c # cs \<Rightarrow> if (if ic then lower_char c = lower_char a else c = a)
                  then [(g, Some c, cs)] else [])"
| "rmatch ic Dot (g, p, s) =
     (case s of [] \<Rightarrow> [] | c # cs \<Rightarrow> if c \<noteq> newline then [(g, Some c, cs)] else [])"
| "rmatch ic (Cls cl) (g, p, s) =
     (case s of [] \<Rightarrow> [] | c # cs \<Rightarrow> if c \<in> set cl then [(g, Some c, cs)] else [])"
| "rmatch ic Eps (g, p, s) = [(g, p, s)]"
| "rmatch ic (Seq r1 r2) (g, p, s) = concat (map (rmatch ic r2) (rmatch ic r1 (g, p, s)))"
| "rmatch ic (Alt r1 r2) (g, p, s) = rmatch ic r1 (g, p, s) @ rmatch ic r2 (g, p, s)"
| "rmatch ic (Star r) (g, p, s) =
     concat (map (\<lambda>st. if length (snd (snd st)) < length s then rmatch ic (Star r) st else [])
                 (rmatch ic r (g, p, s)))
     @ [(g, p, s)]"
| "rmatch ic (StarLazy r) (g, p, s) =
     (g, p, s)
     # concat (map (\<lambda>st. if length (snd (snd st)) < length s then rmatch ic (StarLazy r) st else [])
                   (rmatch ic r (g, p, s)))"
| "rmatch ic (Grp r) (g, p, s) =
     map (\<lambda>(g', p', s'). (g' @ [take (length s - length s') s], p', s')) (rmatch ic r (g, p, s))"
| "rmatch ic WordB (g, p, s) = (if word_before p \<noteq> word_after s then [(g, p, s)] else [])"
| "rmatch ic Eos (g, p, s) = (if s = [] \<or> s = [newline] then [(g, p, s)] else [])"
  by pat_completeness auto
termination
  by (relation "measures [\<lambda>(ic, r, st). size r, \<lambda>(ic, r, g, p, s). length s]") auto

text \<open>
  \<^verbatim>\<open>re.search\<close>: the first position, from the left, where the pattern matches, with the
  groups and the matched text (\<^verbatim>\<open>group(0)\<close>) of the match reported there.
\<close>

fun re_search_from :: "bool \<Rightarrow> rx \<Rightarrow> char option \<Rightarrow> string \<Rightarrow> (string list \<times> string) option" where
  "re_search_from ic r p [] =
     (case rmatch ic r ([], p, []) of [] \<Rightarrow> None | (g, _, _) # _ \<Rightarrow> Some (g, []))"
| "re_search_from ic r p (c # cs) =
     (case rmatch ic r ([], p, c # cs) of
        [] \<Rightarrow> re_search_from ic r (Some c) cs
      | (g, _, s') # _ \<Rightarrow> Some (g, take (length (c # cs) - length s') (c # cs)))"

definition re_search :: "bool \<Rightarrow> rx \<Rightarrow> string \<Rightarrow> (string list \<times> string) option" where
  "re_search ic r s = re_search_from ic r None s"

text \<open>
  \<^verbatim>\<open>re.findall\<close>: the groups of every match, left to right, each search starting where
  the last match ended (one character further after an empty match; the patterns of the
  source never match the empty string).
\<close>

function re_findall_from :: "bool \<Rightarrow> rx \<Rightarrow> char option \<Rightarrow> string \<Rightarrow> string list list" where
  "re_findall_from ic r p s =
     (case rmatch ic r ([], p, s) of
        [] \<Rightarrow> (case s of [] \<Rightarrow> [] | c # cs \<Rightarrow> re_findall_from ic r (Some c) cs)
      | (g, p', s') # _ \<Rightarrow>
          (if length s' < length s then g # re_findall_from ic r p' s'
           else (case s of [] \<Rightarrow> [g] | c # cs \<Rightarrow> g # re_findall_from ic r (Some c) cs)))"
  by pat_completeness auto
termination
  by (relation "measure (\<lambda>(ic, r, p, s). length s)") auto

definition re_findall :: "bool \<Rightarrow> rx \<Rightarrow> string \<Rightarrow> string list list" where
  "re_findall ic r s = re_findall_from ic r None s"

text \<open>The \<open>i\<close>-th group of a match (counted from 0 here), empty when there is none.\<close>

definition grp :: "string list \<Rightarrow> nat \<Rightarrow> string" where
  "grp g i = (if i < length g then g ! i else [])"

fun lit :: "string \<Rightarrow> rx" where
  "lit [] = Eps"
| "lit (c # cs) = Seq (Chr c) (lit cs)"

definition rx_plus :: "rx \<Rightarrow> rx" where
  "rx_plus r = Seq r (Star r)"

definition rx_plus_lazy :: "rx \<Rightarrow> rx" where
  "rx_plus_lazy r = Seq r (StarLazy r)"

definition digit :: rx where
  "digit = Cls ''0123456789''"

section \<open>AbilityParser\<close>

record cost =
  cost_type :: string
  cost_value :: string

record trigger =
  trigger_condition :: string
  trigger_timing :: string

record effect =
  effect_type :: string
  effect_targets :: "string list"
  effect_value :: int

record parsed_components =
  costs :: "cost list"
  triggers :: "trigger list"
  effects :: "effect list"

record ability =
  ability_id :: string
  ability_type :: string
  raw_text :: string
  parsed_components :: parsed_components

text \<open>
  The records stand for the dictionaries the parser builds; the fields \<open>cost_type\<close>,
  \<open>cost_value\<close>, \<open>trigger_condition\<close>, \<open>trigger_timing\<close>, \<open>effect_type\<close>,
  \<open>effect_targets\<close> and \<open>effect_value\<close> are the keys \<^verbatim>\<open>"type"\<close>, \<^verbatim>\<open>"value"\<close>,
  \<^verbatim>\<open>"condition"\<close>, \<^verbatim>\<open>"timing"\<close>, \<^verbatim>\<open>"type"\<close>, \<^verbatim>\<open>"targets"\<close> and \<^verbatim>\<open>"value"\<close>.
\<close>

definition classify_ability_type :: "string \<Rightarrow> string" where
  "classify_ability_type text =
     (if contains '':'' text then ''activated''
      else if list_ex (\<lambda>trigger. contains trigger (lower text))
                [''when'', ''whenever'', ''at the beginning''] then ''triggered''
      else if list_ex (\<lambda>keyword. contains keyword (lower text))
                [''flying'', ''trample'', ''haste'', ''vigilance''] then ''keyword''
      else ''static'')"

text \<open>\<^verbatim>\<open>r'\{([WUBRG\d]+)\}'\<close>\<close>

definition mana_re :: rx where
  "mana_re = Seq (Chr (CHR ''{'')) (Seq (Grp (rx_plus (Cls ''WUBRG0123456789''))) (Chr (CHR ''}'')))"

text \<open>\<^verbatim>\<open>r'(?i)\b(tap|t)\b'\<close>, matched with the flag \<^verbatim>\<open>(?i)\<close> set.\<close>

definition tap_re :: rx where
  "tap_re = Seq WordB (Seq (Grp (Alt (lit ''tap'') (lit ''t''))) WordB)"

definition extract_costs :: "string \<Rightarrow> cost list" where
  "extract_costs text =
     map (\<lambda>g. \<lparr>cost_type = ''mana'', cost_value = ''{'' @ grp g 0 @ ''}''\<rparr>)
         (re_findall False mana_re text)
     @ (if re_search True tap_re text \<noteq> None
        then [\<lparr>cost_type = ''tap'', cost_value = ''Tap''\<rparr>] else [])"

text \<open>\<^verbatim>\<open>r"when .* enters"\<close>, \<^verbatim>\<open>r"whenever .* dies"\<close>, \<^verbatim>\<open>r"at the beginning"\<close>\<close>

definition when_re :: rx where
  "when_re = Seq (lit ''when '') (Seq (Star Dot) (lit '' enters''))"

definition dies_re :: rx where
  "dies_re = Seq (lit ''whenever '') (Seq (Star Dot) (lit '' dies''))"

definition beginning_re :: rx where
  "beginning_re = lit ''at the beginning''"

definition trigger_patterns :: "(rx \<times> string) list" where
  "trigger_patterns = [(when_re, ''when''), (dies_re, ''whenever''), (beginning_re, ''at'')]"

text \<open>
  The source searches twice, once for the test and once for \<^verbatim>\<open>group(0)\<close>; both
  searches read the same text, so the model searches once.
\<close>

definition extract_triggers :: "string \<Rightarrow> trigger list" where
  "extract_triggers text =
     concat (map (\<lambda>(pattern, timing).
                    case re_search False pattern (lower text) of
                      None \<Rightarrow> []
                    | Some (g, m) \<Rightarrow> [\<lparr>trigger_condition = m, trigger_timing = timing\<rparr>])
                 trigger_patterns)"

text \<open>\<^verbatim>\<open>r'deals (\d+) damage to (.+?)(?:\.|$)'\<close>\<close>

definition damage_re :: rx where
  "damage_re =
     Seq (lit ''deals '') (Seq (Grp (rx_plus digit)) (Seq (lit '' damage to '')
       (Seq (Grp (rx_plus_lazy Dot)) (Alt (Chr (CHR ''.'')) Eos))))"

definition extract_effects :: "string \<Rightarrow> effect list" where
  "extract_effects text =
     map (\<lambda>g. \<lparr>effect_type = ''damage'', effect_targets = [strip (grp g 1)],
                effect_value = py_int (grp g 0)\<rparr>)
         (re_findall False damage_re (lower text))"

definition parse_ability :: "string \<Rightarrow> string \<Rightarrow> ability" where
  "parse_ability text aid =
     \<lparr>ability_id = aid,
      ability_type = classify_ability_type text,
      raw_text = text,
      parsed_components =
        \<lparr>costs = extract_costs text,
         triggers = extract_triggers text,
         effects = extract_effects text\<rparr>\<rparr>"

section \<open>StrategicTagger\<close>

record card_metadata =
  name :: string
  oracle_id :: string
  scryfall_id :: string
  mana_cost :: string
  cmc :: rat
  type_line :: string
  oracle_text :: string
  colors :: "string list"
  color_identity :: "string list"
  keywords' :: "string list"
  power' :: "string option"
  toughness :: "string option"
  loyalty :: "string option"

text \<open>
  \<open>cmc\<close> is a JSON number (an integer or a finite float); the code only compares it
  with 2 and with 6, and Python compares a float with an integer exactly, so a rational
  stands for it. The two confidences 0.8 and 0.9 are constants the code never computes
  with; they are the rationals 8/10 and 9/10 here.
\<close>

record card_data =
  card_metadata :: card_metadata
  parsed_abilities :: "ability list"

record tag =
  path :: "string list"
  confidence :: rat

record reward_hints =
  immediate_impact :: bool
  delayed_impact :: bool
  symmetrical :: bool
  card_advantage :: int

record strategic_tags =
  hierarchical_tags :: "tag list"
  flattened_tags :: "string list"
  archetype_hints :: "string list"
  reward_hints :: reward_hints

text \<open>A rule of \<^verbatim>\<open>TAG_RULES\<close> is a list of patterns or a lambda over the card.\<close>

datatype matcher = Substrings "string list" | Predicate "card_data \<Rightarrow> bool"

text \<open>\<^verbatim>\<open>TAG_RULES\<close>: a dictionary iterates in the order its keys were written.\<close>

definition TAG_RULES :: "(string \<times> (string \<times> matcher) list) list" where
  "TAG_RULES =
     [(''interaction'',
         [(''removal'', Substrings [''deals'', ''damage'', ''destroy'', ''exile'', ''return to hand'']),
          (''counterspell'', Substrings [''counter target'']),
          (''protection'', Substrings [''prevent'', ''indestructible'', ''hexproof''])]),
      (''tempo'',
         [(''low_cost_interaction'', Predicate (\<lambda>card. cmc (card_metadata card) \<le> 2)),
          (''bounce'', Substrings [''return'', ''bounce''])]),
      (''value'',
         [(''card_draw'', Substrings [''draw'', ''cards'']),
          (''tutoring'', Substrings [''search'', ''library''])]),
      (''ramp'',
         [(''mana_acceleration'', Substrings [''add mana'', ''lands'', ''mana cost''])])]"

text \<open>
  The state of the two loops of \<^verbatim>\<open>generate_tags\<close>: the list \<^verbatim>\<open>hierarchical_tags\<close> and
  the set \<^verbatim>\<open>flattened_tags\<close>, kept as the sequence of the strings inserted into it.
\<close>

type_synonym tag_state = "tag list \<times> string list"

text \<open>The innermost loop: the first pattern found in the text appends once and breaks.\<close>

fun pattern_loop :: "string \<Rightarrow> string \<Rightarrow> string \<Rightarrow> string list \<Rightarrow> tag_state \<Rightarrow> tag_state" where
  "pattern_loop otext category subcategory [] (h, f) = (h, f)"
| "pattern_loop otext category subcategory (pattern # patterns) (h, f) =
     (if contains pattern otext
      then (h @ [\<lparr>path = [category, subcategory], confidence = 9 / 10\<rparr>], f @ [category, subcategory])
      else pattern_loop otext category subcategory patterns (h, f))"

fun apply_rule :: "card_data \<Rightarrow> string \<Rightarrow> string \<Rightarrow> string \<times> matcher \<Rightarrow> tag_state \<Rightarrow> tag_state" where
  "apply_rule card_data otext category (subcategory, Predicate patterns) (h, f) =
     (if patterns card_data
      then (h @ [\<lparr>path = [category, subcategory], confidence = 8 / 10\<rparr>], f @ [category, subcategory])
      else (h, f))"
| "apply_rule card_data otext category (subcategory, Substrings patterns) (h, f) =
     pattern_loop otext category subcategory patterns (h, f)"

definition apply_rules :: "card_data \<Rightarrow> string \<Rightarrow> tag_state" where
  "apply_rules card_data otext =
     fold (\<lambda>(category, subcategories). fold (apply_rule card_data otext category) subcategories)
          TAG_RULES ([], [])"

definition generate_archetype_hints :: "card_data \<Rightarrow> string list" where
  "generate_archetype_hints card_data =
     (let c = cmc (card_metadata card_data);
          tl = lower (type_line (card_metadata card_data));
          ot = lower (oracle_text (card_metadata card_data))
      in (if c \<le> 2 then [''aggro''] else [])
         @ (if c \<ge> 6 then [''control''] else [])
         @ (if contains ''instant'' tl \<or> contains ''flash'' ot then [''tempo''] else [])
         @ (if list_ex (\<lambda>keyword. contains keyword ot) [''combo'', ''infinite'', ''win the game'']
            then [''combo''] else []))"

definition estimate_card_advantage :: "string \<Rightarrow> int" where
  "estimate_card_advantage otext =
     (if contains ''draw'' otext then 1
      else if contains ''search'' otext then 0
      else if contains ''deals'' otext \<or> contains ''damage'' otext \<or> contains ''destroy'' otext
      then - 1
      else 0)"

definition generate_reward_hints :: "card_data \<Rightarrow> string \<Rightarrow> reward_hints" where
  "generate_reward_hints card_data otext =
     (let tl = lower (type_line (card_metadata card_data))
      in \<lparr>immediate_impact = (contains ''instant'' tl \<or> contains ''flash'' otext),
          delayed_impact = (contains ''enchantment'' tl \<or> contains ''artifact'' tl),
          symmetrical = (contains ''each player'' otext \<or> contains ''all players'' otext),
          card_advantage = estimate_card_advantage otext\<rparr>)"

text \<open>
  \<^verbatim>\<open>list(flattened_tags)\<close> lists a set of strings. The order in which a Python set of
  strings iterates depends on the hashes of the strings, which the interpreter seeds
  anew in every process, so the order is a parameter \<open>set_order\<close> of the model: it
  takes the strings inserted, in order, and returns the list. Whatever the seed, a set
  lists each of its elements once (\<open>valid_set_order\<close>).
\<close>

definition valid_set_order :: "(string list \<Rightarrow> string list) \<Rightarrow> bool" where
  "valid_set_order set_order = (\<forall>xs. mset (set_order xs) = mset (remdups xs))"

definition generate_tags :: "(string list \<Rightarrow> string list) \<Rightarrow> card_data \<Rightarrow> strategic_tags" where
  "generate_tags set_order card_data =
     (let otext = lower (oracle_text (card_metadata card_data));
          st = apply_rules card_data otext
      in \<lparr>hierarchical_tags = fst st,
          flattened_tags = set_order (snd st),
          archetype_hints = generate_archetype_hints card_data,
          reward_hints = generate_reward_hints card_data otext\<rparr>)"

section \<open>CardIRGenerator\<close>

text \<open>
  The input dictionary, with the keys the generator reads; None is an absent key. The
  values have the types of a Scryfall card (strings, a number, lists of strings, a
  dictionary of strings).
\<close>

record scryfall =
  sf_name :: "string option"
  sf_oracle_id :: "string option"
  sf_id :: "string option"
  sf_mana_cost :: "string option"
  sf_cmc :: "rat option"
  sf_type_line :: "string option"
  sf_oracle_text :: "string option"
  sf_colors :: "string list option"
  sf_color_identity :: "string list option"
  sf_keywords :: "string list option"
  sf_power :: "string option"
  sf_toughness :: "string option"
  sf_loyalty :: "string option"
  sf_legalities :: "(string \<rightharpoonup> string) option"

text \<open>\<^verbatim>\<open>d.get(key, default)\<close>\<close>

definition get_or :: "'a option \<Rightarrow> 'a \<Rightarrow> 'a" where
  "get_or v d = (case v of None \<Rightarrow> d | Some x \<Rightarrow> x)"

record format_legality =
  commander :: string
  can_be_commander :: bool

record gameplay_metadata =
  zones :: "string list"
  enters_tapped :: bool
  has_abilities_in_graveyard :: bool

record CardIR =
  ir_version :: string
  generated_at :: string
  ir_card_metadata :: card_metadata
  ir_parsed_abilities :: "ability list"
  ir_strategic_tags :: strategic_tags
  ir_format_legality :: format_legality
  ir_gameplay_metadata :: gameplay_metadata

definition extract_metadata :: "scryfall \<Rightarrow> card_metadata" where
  "extract_metadata d =
     \<lparr>name = get_or (sf_name d) '''',
      oracle_id = get_or (sf_oracle_id d) '''',
      scryfall_id = get_or (sf_id d) '''',
      mana_cost = get_or (sf_mana_cost d) '''',
      cmc = get_or (sf_cmc d) 0,
      type_line = get_or (sf_type_line d) '''',
      oracle_text = get_or (sf_oracle_text d) '''',
      colors = get_or (sf_colors d) [],
      color_identity = get_or (sf_color_identity d) [],
      keywords' = get_or (sf_keywords d) [],
      power' = sf_power d,
      toughness = sf_toughness d,
      loyalty = sf_loyalty d\<rparr>"

definition parse_abilities :: "scryfall \<Rightarrow> ability list" where
  "parse_abilities d =
     (let otext = get_or (sf_oracle_text d) ''''
      in if otext = [] then []
         else [parse_ability otext
                 (replace (CHR '' '') (CHR ''_'') (lower (get_or (sf_name d) ''unknown''))
                  @ ''_main_effect'')])"

definition extract_legality :: "scryfall \<Rightarrow> format_legality" where
  "extract_legality d =
     (let legalities = get_or (sf_legalities d) Map.empty;
          tl = lower (get_or (sf_type_line d) '''')
      in \<lparr>commander = get_or (legalities ''commander'') ''not_legal'',
          can_be_commander = (contains ''legendary'' tl \<and> contains ''creature'' tl)\<rparr>)"

definition extract_gameplay_metadata :: "scryfall \<Rightarrow> gameplay_metadata" where
  "extract_gameplay_metadata d =
     (let tl = lower (get_or (sf_type_line d) '''');
          otext = lower (get_or (sf_oracle_text d) '''')
      in \<lparr>zones =
            [''hand'']
            @ (if list_ex (\<lambda>t. contains t tl) [''creature'', ''artifact'', ''enchantment'', ''planeswalker'']
               then [''battlefield''] else [])
            @ [''graveyard'', ''exile'', ''library'']
            @ (if \<not> list_ex (\<lambda>t. contains t tl) [''instant'', ''sorcery''] then [''stack''] else []),
          enters_tapped =
            (contains ''enters tapped'' otext \<or> contains ''enters the battlefield tapped'' otext),
          has_abilities_in_graveyard =
            (contains ''graveyard'' otext \<and> (contains ''activate'' otext \<or> contains '':'' otext))\<rparr>)"

text \<open>
  \<open>utcnow\<close> is the text \<^verbatim>\<open>datetime.utcnow().isoformat()\<close> returns when the record is
  built; \<open>set_order\<close> is the iteration order of the interpreter's sets.
\<close>

definition convert_scryfall_to_ir :: "(string list \<Rightarrow> string list) \<Rightarrow> string \<Rightarrow> scryfall \<Rightarrow> CardIR" where
  "convert_scryfall_to_ir set_order utcnow d =
     (let md = extract_metadata d;
          abilities = parse_abilities d;
          card_data = \<lparr>card_metadata = md, parsed_abilities = abilities\<rparr>
      in \<lparr>ir_version = ''1.0.0'',
          generated_at = utcnow @ ''Z'',
          ir_card_metadata = md,
          ir_parsed_abilities = abilities,
          ir_strategic_tags = generate_tags set_order card_data,
          ir_format_legality = extract_legality d,
          ir_gameplay_metadata = extract_gameplay_metadata d\<rparr>)"

section \<open>Invocations in one interpreter process\<close>







section \<open>Occurrences of a trigger template\<close>

text \<open>
  The words in which the result of \<^verbatim>\<open>_extract_triggers\<close> is stated. An instance of the
  template \<open>a \<dots> b\<close> is the text \<open>a\<close>, then any characters of one line (\<^verbatim>\<open>.*\<close> does not
  cross a line break), then the text \<open>b\<close>.
\<close>

definition template_instance :: "string \<Rightarrow> string \<Rightarrow> string \<Rightarrow> bool" where
  "template_instance a b m = (\<exists>x. m = a @ x @ b \<and> newline \<notin> set x)"

text \<open>The template that goes with each timing label.\<close>

definition template_of :: "string \<Rightarrow> string \<Rightarrow> bool" where
  "template_of timing m =
     (if timing = ''when'' then template_instance ''when '' '' enters'' m
      else if timing = ''whenever'' then template_instance ''whenever '' '' dies'' m
      else if timing = ''at'' then m = ''at the beginning''
      else False)"

text \<open>An instance of \<open>T\<close> starts at position \<open>i\<close> of \<open>s\<close>.\<close>

definition occurs_at :: "(string \<Rightarrow> bool) \<Rightarrow> string \<Rightarrow> nat \<Rightarrow> bool" where
  "occurs_at T s i = (i \<le> length s \<and> (\<exists>m. T m \<and> prefix m (drop i s)))"

text \<open>
  \<open>m\<close> is the first match of \<open>T\<close> in \<open>s\<close>: an instance that starts at the first position
  where any instance starts, and the longest one that starts there.
\<close>

definition first_match :: "(string \<Rightarrow> bool) \<Rightarrow> string \<Rightarrow> string \<Rightarrow> bool" where
  "first_match T s m =
     (\<exists>i\<le>length s. T m \<and> prefix m (drop i s)
         \<and> (\<forall>j<i. \<not> occurs_at T s j)
         \<and> (\<forall>m'. T m' \<and> prefix m' (drop i s) \<longrightarrow> length m' \<le> length m))"

section \<open>Inputs used in examples\<close>

text \<open>The empty dictionary: every key is absent.\<close>

definition empty_record :: scryfall where
  "empty_record =
     \<lparr>sf_name = None, sf_oracle_id = None, sf_id = None, sf_mana_cost = None, sf_cmc = None,
      sf_type_line = None, sf_oracle_text = None, sf_colors = None, sf_color_identity = None,
      sf_keywords = None, sf_power = None, sf_toughness = None, sf_loyalty = None,
      sf_legalities = None\<rparr>"

text \<open>The record of the first test of the repository, with the fields the example names.\<close>

definition lightning_bolt :: scryfall where
  "lightning_bolt =
     \<lparr>sf_name = Some ''Lightning Bolt'', sf_oracle_id = None, sf_id = None,
      sf_mana_cost = Some ''{R}'', sf_cmc = Some 1, sf_type_line = Some ''Instant'',
      sf_oracle_text = Some ''Lightning Bolt deals 3 damage to any target.'',
      sf_colors = Some [''R''], sf_color_identity = None, sf_keywords = None, sf_power = None,
      sf_toughness = None, sf_loyalty = None,
      sf_legalities = Some [''commander'' \<mapsto> ''legal'']\<rparr>"

section \<open>The tags a rule table yields\<close>

text \<open>
  Used in the proofs: whether a matcher fires, the confidence of its kind, and the tags
  the rules of one category append.
\<close>

definition fires :: "card_data \<Rightarrow> string \<Rightarrow> matcher \<Rightarrow> bool" where
  "fires card_data otext m =
     (case m of Predicate f \<Rightarrow> f card_data | Substrings ps \<Rightarrow> list_ex (\<lambda>p. contains p otext) ps)"

definition conf :: "matcher \<Rightarrow> rat" where
  "conf m = (case m of Predicate f \<Rightarrow> 8 / 10 | Substrings ps \<Rightarrow> 9 / 10)"

definition rule_tags :: "card_data \<Rightarrow> string \<Rightarrow> string \<Rightarrow> (string \<times> matcher) list \<Rightarrow> tag list" where
  "rule_tags card_data otext category subcategories =
     concat (map (\<lambda>(subcategory, m).
                    if fires card_data otext m
                    then [\<lparr>path = [category, subcategory], confidence = conf m\<rparr>] else [])
                 subcategories)"


section \<open>Substrings\<close>

lemma contains_sublist: "contains sub s = sublist sub s"
  by (induction s) (auto simp: sublist_Cons_right)

lemma contains_char: "contains [c] s = (c \<in> set s)"
  by (induction s) auto

section \<open>Classification of an ability\<close>

text \<open>
  C5. \<open>classify_ability_type\<close> decides in a strict order. A text with a colon is
  \<open>activated\<close>, whatever else it holds; without a colon, a lowercased text that holds
  one of "when", "whenever", "at the beginning" is \<open>triggered\<close>; failing that, one that
  holds one of "flying", "trample", "haste", "vigilance" is \<open>keyword\<close>; every other
  text is \<open>static\<close>.
\<close>

theorem classify_priority:
  "(CHR '':'' \<in> set text \<longrightarrow> classify_ability_type text = ''activated'') \<and>
   (CHR '':'' \<notin> set text \<and> (\<exists>w \<in> {''when'', ''whenever'', ''at the beginning''}. sublist w (lower text))
      \<longrightarrow> classify_ability_type text = ''triggered'') \<and>
   (CHR '':'' \<notin> set text \<and> \<not> (\<exists>w \<in> {''when'', ''whenever'', ''at the beginning''}. sublist w (lower text))
      \<and> (\<exists>w \<in> {''flying'', ''trample'', ''haste'', ''vigilance''}. sublist w (lower text))
      \<longrightarrow> classify_ability_type text = ''keyword'') \<and>
   (CHR '':'' \<notin> set text \<and> \<not> (\<exists>w \<in> {''when'', ''whenever'', ''at the beginning''}. sublist w (lower text))
      \<and> \<not> (\<exists>w \<in> {''flying'', ''trample'', ''haste'', ''vigilance''}. sublist w (lower text))
      \<longrightarrow> classify_ability_type text = ''static'')"
  by (simp add: classify_ability_type_def contains_sublist [symmetric] contains_char)

theorem classify_priority_witness:
  "classify_ability_type ''When this enters: draw'' = ''activated''
   \<and> classify_ability_type ''Whenever a creature dies, draw'' = ''triggered''
   \<and> classify_ability_type ''Flying, haste'' = ''keyword''
   \<and> classify_ability_type ''Draw a card.'' = ''static''"
proof -
  have l: "lower ''Whenever a creature dies, draw'' = ''whenever a creature dies, draw''"
    "lower ''Flying, haste'' = ''flying, haste''"
    "lower ''Draw a card.'' = ''draw a card.''"
    by code_simp+
  show ?thesis
    using classify_priority [of "''When this enters: draw''"]
      classify_priority [of "''Whenever a creature dies, draw''"]
      classify_priority [of "''Flying, haste''"]
      classify_priority [of "''Draw a card.''"]
    by (simp add: contains_sublist [symmetric] l)
qed

section \<open>Card advantage\<close>

text \<open>
  C4. The card advantage in the reward hints of a converted card is
  \<open>estimate_card_advantage\<close> of the lowercased oracle text, and that estimate takes
  the first rule that applies: "draw" gives 1; else "search" gives 0; else one of
  "deals", "damage", "destroy" gives -1; else 0. A text with both "draw" and "damage"
  gives 1.
\<close>

theorem card_advantage_priority:
  "card_advantage (reward_hints (ir_strategic_tags (convert_scryfall_to_ir set_order utcnow d)))
     = estimate_card_advantage (lower (get_or (sf_oracle_text d) '''')) \<and>
   (sublist ''draw'' t \<longrightarrow> estimate_card_advantage t = 1) \<and>
   (\<not> sublist ''draw'' t \<and> sublist ''search'' t \<longrightarrow> estimate_card_advantage t = 0) \<and>
   (\<not> sublist ''draw'' t \<and> \<not> sublist ''search'' t
      \<and> (sublist ''deals'' t \<or> sublist ''damage'' t \<or> sublist ''destroy'' t)
      \<longrightarrow> estimate_card_advantage t = - 1) \<and>
   (\<not> sublist ''draw'' t \<and> \<not> sublist ''search'' t
      \<and> \<not> sublist ''deals'' t \<and> \<not> sublist ''damage'' t \<and> \<not> sublist ''destroy'' t
      \<longrightarrow> estimate_card_advantage t = 0) \<and>
   (sublist ''draw'' t \<and> sublist ''damage'' t \<longrightarrow> estimate_card_advantage t = 1)"
  by (simp add: convert_scryfall_to_ir_def generate_tags_def generate_reward_hints_def
      extract_metadata_def estimate_card_advantage_def contains_sublist Let_def)

theorem card_advantage_priority_witness:
  "card_advantage (reward_hints (ir_strategic_tags (convert_scryfall_to_ir remdups ''2026-01-01T00:00:00''
      (empty_record\<lparr>sf_oracle_text := Some ''Draw a card. It deals 2 damage.''\<rparr>)))) = 1
   \<and> estimate_card_advantage ''search your library, then destroy it'' = 0
   \<and> estimate_card_advantage ''destroy target creature'' = - 1
   \<and> estimate_card_advantage ''flying'' = 0"
proof -
  have l: "lower ''Draw a card. It deals 2 damage.'' = ''draw a card. it deals 2 damage.''"
    by code_simp
  show ?thesis
    using card_advantage_priority [of remdups "''2026-01-01T00:00:00''"
        "empty_record\<lparr>sf_oracle_text := Some ''Draw a card. It deals 2 damage.''\<rparr>"
        "''draw a card. it deals 2 damage.''"]
      card_advantage_priority [of remdups "''''" empty_record "''search your library, then destroy it''"]
      card_advantage_priority [of remdups "''''" empty_record "''destroy target creature''"]
      card_advantage_priority [of remdups "''''" empty_record "''flying''"]
    by (simp add: contains_sublist [symmetric] l empty_record_def get_or_def)
qed

section \<open>Zones\<close>

lemma zones_convert:
  "zones (ir_gameplay_metadata (convert_scryfall_to_ir set_order utcnow d))
     = [''hand'']
       @ (if list_ex (\<lambda>t. contains t (lower (get_or (sf_type_line d) '''')))
               [''creature'', ''artifact'', ''enchantment'', ''planeswalker'']
          then [''battlefield''] else [])
       @ [''graveyard'', ''exile'', ''library'']
       @ (if \<not> list_ex (\<lambda>t. contains t (lower (get_or (sf_type_line d) ''''))) [''instant'', ''sorcery'']
          then [''stack''] else [])"
  by (simp add: convert_scryfall_to_ir_def extract_gameplay_metadata_def Let_def)

lemma lower_Instant: "lower ''Instant'' = ''instant''"
  by code_simp

lemma lower_Creature: "lower ''Creature'' = ''creature''"
  by code_simp

text \<open>
  C3. The zones of a converted card are "hand", then "battlefield" exactly when the
  lowercased type line holds one of "creature", "artifact", "enchantment",
  "planeswalker", then "graveyard", "exile", "library", and at the end "stack" exactly
  when the lowercased type line holds neither "instant" nor "sorcery". The type line
  "Instant" gives zones without "stack"; the type line "Creature" gives zones with
  "stack" and "battlefield".
\<close>

theorem zones_rule:
  "let tl = lower (get_or (sf_type_line d) '''');
       z = zones (ir_gameplay_metadata (convert_scryfall_to_ir set_order utcnow d));
       permanent = (\<exists>t \<in> {''creature'', ''artifact'', ''enchantment'', ''planeswalker''}. sublist t tl);
       spell = (sublist ''instant'' tl \<or> sublist ''sorcery'' tl)
   in z = [''hand''] @ (if permanent then [''battlefield''] else [])
            @ [''graveyard'', ''exile'', ''library''] @ (if spell then [] else [''stack''])
      \<and> z \<noteq> [] \<and> hd z = ''hand''
      \<and> (''battlefield'' \<in> set z \<longleftrightarrow> permanent)
      \<and> {''graveyard'', ''exile'', ''library''} \<subseteq> set z
      \<and> (last z = ''stack'' \<longleftrightarrow> \<not> spell)
      \<and> (''stack'' \<in> set z \<longleftrightarrow> \<not> spell)
      \<and> (sf_type_line d = Some ''Instant'' \<longrightarrow> ''stack'' \<notin> set z)
      \<and> (sf_type_line d = Some ''Creature'' \<longrightarrow> ''stack'' \<in> set z \<and> ''battlefield'' \<in> set z)"
proof -
  define tl where "tl = lower (get_or (sf_type_line d) '''')"
  define z where "z = zones (ir_gameplay_metadata (convert_scryfall_to_ir set_order utcnow d))"
  define permanent where
    "permanent = (\<exists>t \<in> {''creature'', ''artifact'', ''enchantment'', ''planeswalker''}. sublist t tl)"
  define spell where "spell = (sublist ''instant'' tl \<or> sublist ''sorcery'' tl)"
  have z: "z = [''hand''] @ (if permanent then [''battlefield''] else [])
            @ [''graveyard'', ''exile'', ''library''] @ (if spell then [] else [''stack''])"
    unfolding z_def zones_convert permanent_def spell_def tl_def
    by (simp add: contains_sublist)
  have instant: "spell" if "sf_type_line d = Some ''Instant''"
    using that unfolding spell_def tl_def
    by (simp add: get_or_def lower_Instant contains_sublist [symmetric])
  have creature: "\<not> spell \<and> permanent" if "sf_type_line d = Some ''Creature''"
    using that unfolding spell_def permanent_def tl_def
    by (simp add: get_or_def lower_Creature contains_sublist [symmetric])
  have "z \<noteq> []" "hd z = ''hand''" "''battlefield'' \<in> set z \<longleftrightarrow> permanent"
    "{''graveyard'', ''exile'', ''library''} \<subseteq> set z"
    "last z = ''stack'' \<longleftrightarrow> \<not> spell" "''stack'' \<in> set z \<longleftrightarrow> \<not> spell"
    unfolding z by simp_all
  with z instant creature show ?thesis
    unfolding Let_def tl_def [symmetric] z_def [symmetric] permanent_def [symmetric] spell_def [symmetric]
    by blast
qed

theorem zones_rule_witness:
  "zones (ir_gameplay_metadata (convert_scryfall_to_ir remdups ''2026-01-01T00:00:00''
      (empty_record\<lparr>sf_type_line := Some ''Instant''\<rparr>)))
     = [''hand'', ''graveyard'', ''exile'', ''library'']
   \<and> zones (ir_gameplay_metadata (convert_scryfall_to_ir remdups ''2026-01-01T00:00:00''
      (empty_record\<lparr>sf_type_line := Some ''Creature''\<rparr>)))
     = [''hand'', ''battlefield'', ''graveyard'', ''exile'', ''library'', ''stack'']"
  using zones_rule [of "empty_record\<lparr>sf_type_line := Some ''Instant''\<rparr>" remdups "''2026-01-01T00:00:00''"]
    zones_rule [of "empty_record\<lparr>sf_type_line := Some ''Creature''\<rparr>" remdups "''2026-01-01T00:00:00''"]
  by (simp add: Let_def contains_sublist [symmetric] lower_Instant lower_Creature
      empty_record_def get_or_def)


section \<open>Tags, abilities and the whole conversion\<close>

lemma pattern_loop_eq:
  "pattern_loop otext c s ps (h, f) =
     (if list_ex (\<lambda>p. contains p otext) ps
      then (h @ [\<lparr>path = [c, s], confidence = 9 / 10\<rparr>], f @ [c, s]) else (h, f))"
  by (induction ps) auto

lemma apply_rule_eq:
  "apply_rule cd otext c (s, m) (h, f) =
     (if fires cd otext m
      then (h @ [\<lparr>path = [c, s], confidence = conf m\<rparr>], f @ [c, s]) else (h, f))"
  by (cases m) (simp_all add: fires_def conf_def pattern_loop_eq)

lemma fold_apply_rule:
  "fold (apply_rule cd otext c) subs (h, f) =
     (h @ rule_tags cd otext c subs, f @ concat (map path (rule_tags cd otext c subs)))"
proof (induction subs arbitrary: h f)
  case Nil
  then show ?case by (simp add: rule_tags_def)
next
  case (Cons sm subs)
  obtain s m where sm: "sm = (s, m)" by (cases sm)
  show ?case
    using Cons.IH by (simp add: sm apply_rule_eq rule_tags_def)
qed

lemma fold_categories:
  "fold (\<lambda>(c, subs). fold (apply_rule cd otext c) subs) rules (h, f) =
     (h @ concat (map (\<lambda>(c, subs). rule_tags cd otext c subs) rules),
      f @ concat (map path (concat (map (\<lambda>(c, subs). rule_tags cd otext c subs) rules))))"
proof (induction rules arbitrary: h f)
  case Nil
  then show ?case by simp
next
  case (Cons r rules)
  obtain c subs where r: "r = (c, subs)" by (cases r)
  show ?case
    using Cons.IH by (simp add: r fold_apply_rule)
qed

lemma apply_rules_eq:
  "apply_rules cd otext =
     (concat (map (\<lambda>(c, subs). rule_tags cd otext c subs) TAG_RULES),
      concat (map path (concat (map (\<lambda>(c, subs). rule_tags cd otext c subs) TAG_RULES))))"
  unfolding apply_rules_def using fold_categories [of cd otext TAG_RULES "[]" "[]"] by simp

lemma valid_set_order_set: "valid_set_order ord \<Longrightarrow> set (ord xs) = set xs"
  unfolding valid_set_order_def by (metis mset_remdups_subset_eq set_mset_mset set_remdups)

lemma hierarchical_tags_unfold:
  "fst (apply_rules cd otext) =
     (if list_ex (\<lambda>p. contains p otext) [''deals'', ''damage'', ''destroy'', ''exile'', ''return to hand'']
      then [\<lparr>path = [''interaction'', ''removal''], confidence = 9 / 10\<rparr>] else [])
     @ (if contains ''counter target'' otext
        then [\<lparr>path = [''interaction'', ''counterspell''], confidence = 9 / 10\<rparr>] else [])
     @ (if list_ex (\<lambda>p. contains p otext) [''prevent'', ''indestructible'', ''hexproof'']
        then [\<lparr>path = [''interaction'', ''protection''], confidence = 9 / 10\<rparr>] else [])
     @ (if cmc (card_metadata cd) \<le> 2
        then [\<lparr>path = [''tempo'', ''low_cost_interaction''], confidence = 8 / 10\<rparr>] else [])
     @ (if list_ex (\<lambda>p. contains p otext) [''return'', ''bounce'']
        then [\<lparr>path = [''tempo'', ''bounce''], confidence = 9 / 10\<rparr>] else [])
     @ (if list_ex (\<lambda>p. contains p otext) [''draw'', ''cards'']
        then [\<lparr>path = [''value'', ''card_draw''], confidence = 9 / 10\<rparr>] else [])
     @ (if list_ex (\<lambda>p. contains p otext) [''search'', ''library'']
        then [\<lparr>path = [''value'', ''tutoring''], confidence = 9 / 10\<rparr>] else [])
     @ (if list_ex (\<lambda>p. contains p otext) [''add mana'', ''lands'', ''mana cost'']
        then [\<lparr>path = [''ramp'', ''mana_acceleration''], confidence = 9 / 10\<rparr>] else [])"
  unfolding apply_rules_eq TAG_RULES_def rule_tags_def fires_def conf_def
  by (simp only: list.map concat.simps prod.case matcher.case fst_conv append_Nil2 list_ex_Cons_iff list_ex_Nil_iff
      simp_thms append_assoc)

lemma flattened_unfold:
  "snd (apply_rules cd otext) = concat (map path (fst (apply_rules cd otext)))"
  by (simp add: apply_rules_eq)

lemma contains_Nil: "contains p [] = (p = [])"
  by simp

lemma generate_tags_hier:
  "hierarchical_tags (generate_tags ord cd) = fst (apply_rules cd (lower (oracle_text (card_metadata cd))))"
  by (simp add: generate_tags_def Let_def)

lemma generate_tags_flat:
  "flattened_tags (generate_tags ord cd)
     = ord (concat (map path (hierarchical_tags (generate_tags ord cd))))"
  by (simp add: generate_tags_def Let_def flattened_unfold)

lemma convert_tags:
  "ir_strategic_tags (convert_scryfall_to_ir ord t d)
     = generate_tags ord \<lparr>card_metadata = extract_metadata d, parsed_abilities = parse_abilities d\<rparr>"
  by (simp add: convert_scryfall_to_ir_def Let_def)

lemma low_cost_rule:
  "cmc (card_metadata cd) \<le> 2 \<Longrightarrow>
     \<lparr>path = [''tempo'', ''low_cost_interaction''], confidence = 8 / 10\<rparr>
        \<in> set (hierarchical_tags (generate_tags ord cd))
     \<and> (valid_set_order ord \<longrightarrow>
          {''tempo'', ''low_cost_interaction''} \<subseteq> set (flattened_tags (generate_tags ord cd)))
     \<and> ''aggro'' \<in> set (archetype_hints (generate_tags ord cd))"
proof -
  assume c: "cmc (card_metadata cd) \<le> 2"
  let ?t = "\<lparr>path = [''tempo'', ''low_cost_interaction''], confidence = 8 / 10\<rparr>"
  have h: "?t \<in> set (hierarchical_tags (generate_tags ord cd))"
    unfolding generate_tags_hier hierarchical_tags_unfold using c by simp
  have f: "{''tempo'', ''low_cost_interaction''} \<subseteq> set (flattened_tags (generate_tags ord cd))"
    if "valid_set_order ord"
  proof -
    have "set (path ?t) \<subseteq> set (concat (map path (hierarchical_tags (generate_tags ord cd))))"
      using h by (simp only: set_concat set_map) blast
    then show ?thesis
      unfolding generate_tags_flat valid_set_order_set [OF that] by simp
  qed
  have a: "''aggro'' \<in> set (archetype_hints (generate_tags ord cd))"
    using c by (simp add: generate_tags_def generate_archetype_hints_def Let_def)
  from h f a show ?thesis by blast
qed

lemma valid_remdups: "valid_set_order remdups"
  by (simp add: valid_set_order_def)


lemma bolt_abilities:
  "parse_abilities lightning_bolt =
     [\<lparr>ability_id = ''lightning_bolt_main_effect'', ability_type = ''static'',
       raw_text = ''Lightning Bolt deals 3 damage to any target.'',
       parsed_components =
         \<lparr>costs = [], triggers = [],
          effects = [\<lparr>effect_type = ''damage'', effect_targets = [''any target''],
                      effect_value = 3\<rparr>]\<rparr>\<rparr>]"
  by code_simp

lemma bolt_rules:
  "apply_rules \<lparr>card_metadata = extract_metadata lightning_bolt,
                parsed_abilities = parse_abilities lightning_bolt\<rparr>
       (lower (oracle_text (extract_metadata lightning_bolt))) =
     ([\<lparr>path = [''interaction'', ''removal''], confidence = 9 / 10\<rparr>,
       \<lparr>path = [''tempo'', ''low_cost_interaction''], confidence = 8 / 10\<rparr>],
      [''interaction'', ''removal'', ''tempo'', ''low_cost_interaction''])"
  by code_simp

lemma bolt_hints:
  "generate_archetype_hints \<lparr>card_metadata = extract_metadata lightning_bolt,
                parsed_abilities = parse_abilities lightning_bolt\<rparr> = [''aggro'', ''tempo'']"
  by code_simp

lemma bolt_reward:
  "generate_reward_hints \<lparr>card_metadata = extract_metadata lightning_bolt,
                parsed_abilities = parse_abilities lightning_bolt\<rparr>
       (lower (oracle_text (extract_metadata lightning_bolt))) =
     \<lparr>immediate_impact = True, delayed_impact = False, symmetrical = False, card_advantage = - 1\<rparr>"
  by code_simp

lemma bolt_legality:
  "extract_legality lightning_bolt = \<lparr>commander = ''legal'', can_be_commander = False\<rparr>"
  by code_simp

lemma bolt_tags:
  "ir_strategic_tags (convert_scryfall_to_ir ord t lightning_bolt) =
     \<lparr>hierarchical_tags =
        [\<lparr>path = [''interaction'', ''removal''], confidence = 9 / 10\<rparr>,
         \<lparr>path = [''tempo'', ''low_cost_interaction''], confidence = 8 / 10\<rparr>],
      flattened_tags = ord [''interaction'', ''removal'', ''tempo'', ''low_cost_interaction''],
      archetype_hints = [''aggro'', ''tempo''],
      reward_hints = \<lparr>immediate_impact = True, delayed_impact = False, symmetrical = False,
                       card_advantage = - 1\<rparr>\<rparr>"
  unfolding convert_tags generate_tags_def Let_def
  by (simp add: bolt_rules bolt_hints bolt_reward)

text \<open>
  C1. Converting the Lightning Bolt record gives one parsed ability, of type static,
  with no costs, no triggers and the one effect damage 3 to "any target"; the flattened
  tags hold "interaction" and "removal"; the archetype hints hold "aggro" and not
  "control"; immediate_impact is true and card_advantage is -1; commander is "legal"
  and can_be_commander is false.
\<close>

theorem lightning_bolt_conversion:
  "valid_set_order ord \<Longrightarrow>
   (let ir = convert_scryfall_to_ir ord t lightning_bolt; st = ir_strategic_tags ir
    in ir_parsed_abilities ir =
         [\<lparr>ability_id = ''lightning_bolt_main_effect'', ability_type = ''static'',
           raw_text = ''Lightning Bolt deals 3 damage to any target.'',
           parsed_components =
             \<lparr>costs = [], triggers = [],
              effects = [\<lparr>effect_type = ''damage'', effect_targets = [''any target''],
                          effect_value = 3\<rparr>]\<rparr>\<rparr>]
       \<and> {''interaction'', ''removal''} \<subseteq> set (flattened_tags st)
       \<and> ''aggro'' \<in> set (archetype_hints st)
       \<and> ''control'' \<notin> set (archetype_hints st)
       \<and> immediate_impact (reward_hints st) = True
       \<and> card_advantage (reward_hints st) = - 1
       \<and> commander (ir_format_legality ir) = ''legal''
       \<and> can_be_commander (ir_format_legality ir) = False)"
proof -
  assume v: "valid_set_order ord"
  have a: "ir_parsed_abilities (convert_scryfall_to_ir ord t lightning_bolt) = parse_abilities lightning_bolt"
    and l: "ir_format_legality (convert_scryfall_to_ir ord t lightning_bolt) = extract_legality lightning_bolt"
    by (simp_all add: convert_scryfall_to_ir_def Let_def)
  show ?thesis
    unfolding Let_def a l bolt_tags bolt_abilities bolt_legality
    by (simp add: valid_set_order_set [OF v])
qed

theorem lightning_bolt_conversion_witness:
  "flattened_tags (ir_strategic_tags (convert_scryfall_to_ir remdups ''2026-01-01T00:00:00'' lightning_bolt))
     = [''interaction'', ''removal'', ''tempo'', ''low_cost_interaction'']
   \<and> map ability_type (ir_parsed_abilities (convert_scryfall_to_ir remdups ''2026-01-01T00:00:00'' lightning_bolt))
     = [''static'']
   \<and> card_advantage (reward_hints (ir_strategic_tags
        (convert_scryfall_to_ir remdups ''2026-01-01T00:00:00'' lightning_bolt))) = - 1"
  using lightning_bolt_conversion [OF valid_remdups, of "''2026-01-01T00:00:00''"]
  by (simp add: Let_def bolt_tags)

lemma lower_char_space: "lower_char c = CHR '' '' \<longleftrightarrow> c = CHR '' ''"
  by (auto simp: lower_char_def upper_chars_def lower_chars_def split: if_splits)

lemma replace_lower:
  "replace (CHR '' '') (CHR ''_'') (lower n)
     = map (\<lambda>c. if c = CHR '' '' then CHR ''_'' else lower_char c) n"
  by (simp add: replace_def lower_def lower_char_space)

lemma lower_unknown: "lower ''unknown'' = ''unknown''"
  by code_simp

text \<open>
  C2, as amended. For a record with a non-empty oracle text the one parsed ability has
  the id made of the lowercased name with every space replaced by an underscore,
  followed by "_main_effect"; the name is the record's name field, and "unknown" when
  the field is absent.
\<close>

theorem ability_id_from_name:
  "get_or (sf_oracle_text d) '''' \<noteq> '''' \<Longrightarrow>
     map ability_id (ir_parsed_abilities (convert_scryfall_to_ir ord t d))
       = [replace (CHR '' '') (CHR ''_'') (lower (get_or (sf_name d) ''unknown'')) @ ''_main_effect'']
     \<and> (\<forall>n. sf_name d = Some n \<longrightarrow>
           map ability_id (ir_parsed_abilities (convert_scryfall_to_ir ord t d))
             = [map (\<lambda>c. if c = CHR '' '' then CHR ''_'' else lower_char c) n @ ''_main_effect''])
     \<and> (sf_name d = None \<longrightarrow>
           map ability_id (ir_parsed_abilities (convert_scryfall_to_ir ord t d))
             = [''unknown_main_effect''])"
  by (simp add: convert_scryfall_to_ir_def parse_abilities_def parse_ability_def Let_def
      replace_lower [symmetric] get_or_def lower_unknown replace_def)

theorem ability_id_from_name_witness:
  "map ability_id (ir_parsed_abilities (convert_scryfall_to_ir remdups ''2026-01-01T00:00:00'' lightning_bolt))
     = [''lightning_bolt_main_effect'']
   \<and> map ability_id (ir_parsed_abilities (convert_scryfall_to_ir remdups ''2026-01-01T00:00:00''
        (empty_record\<lparr>sf_oracle_text := Some ''Flying''\<rparr>))) = [''unknown_main_effect'']"
proof -
  have l: "replace (CHR '' '') (CHR ''_'') (lower ''Lightning Bolt'') = ''lightning_bolt''"
    "replace (CHR '' '') (CHR ''_'') (lower ''unknown'') = ''unknown''"
    by code_simp+
  show ?thesis
    using ability_id_from_name [of lightning_bolt remdups "''2026-01-01T00:00:00''"]
      ability_id_from_name [of "empty_record\<lparr>sf_oracle_text := Some ''Flying''\<rparr>" remdups
        "''2026-01-01T00:00:00''"]
    by (simp add: lightning_bolt_def empty_record_def get_or_def l)
qed

text \<open>
  C2 as stated takes the empty string for an absent name; the record with the oracle
  text "Flying" and no name gets the id "unknown_main_effect", not "_main_effect".
\<close>

theorem ability_id_empty_default_counterexample:
  "get_or (sf_oracle_text (empty_record\<lparr>sf_oracle_text := Some ''Flying''\<rparr>)) '''' \<noteq> ''''
   \<and> map ability_id (ir_parsed_abilities (convert_scryfall_to_ir remdups ''2026-01-01T00:00:00''
        (empty_record\<lparr>sf_oracle_text := Some ''Flying''\<rparr>)))
     \<noteq> [replace (CHR '' '') (CHR ''_'')
           (lower (get_or (sf_name (empty_record\<lparr>sf_oracle_text := Some ''Flying''\<rparr>)) ''''))
         @ ''_main_effect'']"
  by (simp add: convert_scryfall_to_ir_def parse_abilities_def parse_ability_def Let_def
      get_or_def empty_record_def lower_unknown replace_def lower_def)

text \<open>
  C8. A record whose oracle text is absent or empty has no parsed ability, and its tags
  are those of the metadata rule alone: tempo / low_cost_interaction when cmc is at
  most 2, nothing otherwise; no rule that looks for a pattern in the text fires.
\<close>

theorem empty_text_tags:
  "get_or (sf_oracle_text d) '''' = '''' \<Longrightarrow>
     ir_parsed_abilities (convert_scryfall_to_ir ord t d) = []
     \<and> hierarchical_tags (ir_strategic_tags (convert_scryfall_to_ir ord t d))
         = (if get_or (sf_cmc d) 0 \<le> 2
            then [\<lparr>path = [''tempo'', ''low_cost_interaction''], confidence = 8 / 10\<rparr>] else [])
     \<and> (valid_set_order ord \<longrightarrow>
          set (flattened_tags (ir_strategic_tags (convert_scryfall_to_ir ord t d)))
            = (if get_or (sf_cmc d) 0 \<le> 2 then {''tempo'', ''low_cost_interaction''} else {}))"
proof -
  assume e: "get_or (sf_oracle_text d) '''' = ''''"
  let ?cd = "\<lparr>card_metadata = extract_metadata d, parsed_abilities = parse_abilities d\<rparr>"
  have a: "ir_parsed_abilities (convert_scryfall_to_ir ord t d) = []"
    using e by (simp add: convert_scryfall_to_ir_def parse_abilities_def Let_def)
  have ot: "lower (oracle_text (card_metadata ?cd)) = []"
    using e by (simp add: extract_metadata_def lower_def)
  have c: "cmc (card_metadata ?cd) = get_or (sf_cmc d) 0"
    by (simp add: extract_metadata_def)
  have h: "hierarchical_tags (ir_strategic_tags (convert_scryfall_to_ir ord t d))
         = (if get_or (sf_cmc d) 0 \<le> 2
            then [\<lparr>path = [''tempo'', ''low_cost_interaction''], confidence = 8 / 10\<rparr>] else [])"
    unfolding convert_tags generate_tags_hier ot hierarchical_tags_unfold c by simp
  have f: "set (flattened_tags (ir_strategic_tags (convert_scryfall_to_ir ord t d)))
            = (if get_or (sf_cmc d) 0 \<le> 2 then {''tempo'', ''low_cost_interaction''} else {})"
    if "valid_set_order ord"
    using h unfolding convert_tags generate_tags_flat valid_set_order_set [OF that] by auto
  from a h f show ?thesis by blast
qed

theorem empty_text_tags_witness:
  "ir_parsed_abilities (convert_scryfall_to_ir remdups ''2026-01-01T00:00:00'' empty_record) = []
   \<and> set (flattened_tags (ir_strategic_tags
        (convert_scryfall_to_ir remdups ''2026-01-01T00:00:00'' empty_record)))
       = {''tempo'', ''low_cost_interaction''}
   \<and> flattened_tags (ir_strategic_tags (convert_scryfall_to_ir remdups ''2026-01-01T00:00:00''
        (empty_record\<lparr>sf_oracle_text := Some '''', sf_cmc := Some 5\<rparr>))) = []"
  using empty_text_tags [of empty_record remdups "''2026-01-01T00:00:00''"]
    empty_text_tags [of "empty_record\<lparr>sf_oracle_text := Some '''', sf_cmc := Some 5\<rparr>" remdups
      "''2026-01-01T00:00:00''"]
    valid_remdups
  by (simp add: empty_record_def get_or_def)

text \<open>
  C10. A card whose cmc (0 when absent) is at most 2 gets the hierarchical tag
  tempo / low_cost_interaction with confidence 0.8, has "tempo" and
  "low_cost_interaction" among its flattened tags and "aggro" among its archetype
  hints, whatever its oracle text and type line; stated for the tagger on any card data
  and for the strategic tags of a converted record.
\<close>

theorem low_cost_tempo:
  "(cmc (card_metadata cd) \<le> 2 \<longrightarrow>
      \<lparr>path = [''tempo'', ''low_cost_interaction''], confidence = 8 / 10\<rparr>
         \<in> set (hierarchical_tags (generate_tags ord cd))
      \<and> (valid_set_order ord \<longrightarrow>
           {''tempo'', ''low_cost_interaction''} \<subseteq> set (flattened_tags (generate_tags ord cd)))
      \<and> ''aggro'' \<in> set (archetype_hints (generate_tags ord cd)))
   \<and> (get_or (sf_cmc d) 0 \<le> 2 \<longrightarrow>
      \<lparr>path = [''tempo'', ''low_cost_interaction''], confidence = 8 / 10\<rparr>
         \<in> set (hierarchical_tags (ir_strategic_tags (convert_scryfall_to_ir ord t d)))
      \<and> (valid_set_order ord \<longrightarrow>
           {''tempo'', ''low_cost_interaction''}
             \<subseteq> set (flattened_tags (ir_strategic_tags (convert_scryfall_to_ir ord t d))))
      \<and> ''aggro'' \<in> set (archetype_hints (ir_strategic_tags (convert_scryfall_to_ir ord t d))))"
proof -
  have c: "cmc (card_metadata \<lparr>card_metadata = extract_metadata d, parsed_abilities = parse_abilities d\<rparr>)
             = get_or (sf_cmc d) 0"
    by (simp add: extract_metadata_def)
  show ?thesis
    unfolding convert_tags
    using low_cost_rule [of cd ord]
      low_cost_rule [of "\<lparr>card_metadata = extract_metadata d, parsed_abilities = parse_abilities d\<rparr>" ord]
    unfolding c by blast
qed

theorem low_cost_tempo_witness:
  "\<lparr>path = [''tempo'', ''low_cost_interaction''], confidence = 8 / 10\<rparr>
      \<in> set (hierarchical_tags (ir_strategic_tags
           (convert_scryfall_to_ir remdups ''2026-01-01T00:00:00''
              (empty_record\<lparr>sf_oracle_text := Some ''Flying'', sf_type_line := Some ''Creature'',
                             sf_cmc := Some 2\<rparr>))))
   \<and> {''tempo'', ''low_cost_interaction''}
        \<subseteq> set (flattened_tags (ir_strategic_tags
           (convert_scryfall_to_ir remdups ''2026-01-01T00:00:00''
              (empty_record\<lparr>sf_oracle_text := Some ''Flying'', sf_type_line := Some ''Creature'',
                             sf_cmc := Some 2\<rparr>))))
   \<and> ''aggro'' \<in> set (archetype_hints (ir_strategic_tags
           (convert_scryfall_to_ir remdups ''2026-01-01T00:00:00''
              (empty_record\<lparr>sf_oracle_text := Some ''Flying'', sf_type_line := Some ''Creature'',
                             sf_cmc := Some 2\<rparr>))))"
  using low_cost_tempo [of "\<lparr>card_metadata = extract_metadata empty_record, parsed_abilities = []\<rparr>"
      remdups
      "empty_record\<lparr>sf_oracle_text := Some ''Flying'', sf_type_line := Some ''Creature'',
                     sf_cmc := Some 2\<rparr>" "''2026-01-01T00:00:00''"]
    valid_remdups
  by (simp add: empty_record_def get_or_def)

section \<open>Invocations keep no state\<close>











section \<open>Triggers\<close>

lemma rmatch_lit:
  "rmatch False (lit w) (g, p, s) =
     (if prefix w s then [(g, if w = [] then p else Some (last w), drop (length w) s)] else [])"
proof (induction w arbitrary: p s)
  case Nil
  then show ?case by simp
next
  case (Cons a w)
  show ?case
  proof (cases s)
    case Nil
    then show ?thesis by simp
  next
    case (Cons c cs)
    then show ?thesis using Cons.IH [of "Some c" cs] by auto
  qed
qed

lemma rmatch_dots_lit_step:
  "rmatch False (Seq (Star Dot) (lit b)) (g, p, c # cs) =
      (if c \<noteq> newline then rmatch False (Seq (Star Dot) (lit b)) (g, Some c, cs) else [])
      @ rmatch False (lit b) (g, p, c # cs)"
  by simp

lemma rmatch_dots_lit:
  "b \<noteq> [] \<Longrightarrow>
   set (rmatch False (Seq (Star Dot) (lit b)) (g, p, s)) =
     {(g, Some (last b), s') | s'. \<exists>x. newline \<notin> set x \<and> s = x @ b @ s'}"
proof (induction s arbitrary: p)
  case Nil
  then show ?case by (auto simp: rmatch_lit)
next
  case (Cons c cs)
  have split: "(\<exists>x. newline \<notin> set x \<and> c # cs = x @ b @ s') \<longleftrightarrow>
      (c # cs = b @ s') \<or> (c \<noteq> newline \<and> (\<exists>x. newline \<notin> set x \<and> cs = x @ b @ s'))" for s'
  proof
    assume "\<exists>x. newline \<notin> set x \<and> c # cs = x @ b @ s'"
    then obtain x where x: "newline \<notin> set x" "c # cs = x @ b @ s'" by blast
    show "(c # cs = b @ s') \<or> (c \<noteq> newline \<and> (\<exists>x. newline \<notin> set x \<and> cs = x @ b @ s'))"
    proof (cases x)
      case Nil
      with x show ?thesis by simp
    next
      case (Cons y ys)
      with x show ?thesis by auto
    qed
  next
    assume "(c # cs = b @ s') \<or> (c \<noteq> newline \<and> (\<exists>x. newline \<notin> set x \<and> cs = x @ b @ s'))"
    then show "\<exists>x. newline \<notin> set x \<and> c # cs = x @ b @ s'"
    proof
      assume "c # cs = b @ s'"
      then have "newline \<notin> set [] \<and> c # cs = [] @ b @ s'" by simp
      then show ?thesis by blast
    next
      assume "c \<noteq> newline \<and> (\<exists>x. newline \<notin> set x \<and> cs = x @ b @ s')"
      then obtain x where "c \<noteq> newline" "newline \<notin> set x" "cs = x @ b @ s'" by blast
      then have "newline \<notin> set (c # x) \<and> c # cs = (c # x) @ b @ s'" by simp
      then show ?thesis by blast
    qed
  qed
  have pre: "prefix b (c # cs) \<Longrightarrow> c # cs = b @ drop (length b) (c # cs)"
    by (metis append_eq_conv_conj prefix_def)
  have pre2: "c # cs = b @ s' \<Longrightarrow> prefix b (c # cs) \<and> s' = drop (length b) (c # cs)" for s'
    by (metis append_eq_conv_conj prefixI)
  show ?case
    unfolding rmatch_dots_lit_step split
    using Cons.IH [OF Cons.prems, of "Some c"] Cons.prems pre pre2
    by (auto simp: rmatch_lit simp del: rmatch.simps)
qed

lemma rmatch_dots_lit_sorted:
  "b \<noteq> [] \<Longrightarrow>
   sorted_wrt (\<lambda>u v. length (snd (snd u)) < length (snd (snd v)))
     (rmatch False (Seq (Star Dot) (lit b)) (g, p, s))"
proof (induction s arbitrary: p)
  case Nil
  then show ?case by (simp add: rmatch_lit)
next
  case (Cons c cs)
  have small: "\<forall>u \<in> set (rmatch False (Seq (Star Dot) (lit b)) (g, Some c, cs)).
      length (snd (snd u)) < Suc (length cs) - length b"
    unfolding rmatch_dots_lit [OF Cons.prems] by auto
  show ?case
    unfolding rmatch_dots_lit_step
    using Cons.IH [OF Cons.prems, of "Some c"] small
    by (auto simp: rmatch_lit sorted_wrt_append simp del: rmatch.simps)
qed

lemma rmatch_tmpl_unf:
  "rmatch False (Seq (lit a) (Seq (Star Dot) (lit b))) (g, p, s) =
      (if prefix a s
       then rmatch False (Seq (Star Dot) (lit b)) (g, if a = [] then p else Some (last a), drop (length a) s)
       else [])"
  by (simp add: rmatch_lit del: lit.simps)

lemma rmatch_tmpl_set:
  "b \<noteq> [] \<Longrightarrow>
   set (rmatch False (Seq (lit a) (Seq (Star Dot) (lit b))) (g, p, s)) =
     {(g, Some (last b), s') | s'. \<exists>x. newline \<notin> set x \<and> s = a @ x @ b @ s'}"
proof -
  assume b: "b \<noteq> []"
  have pre: "prefix a s \<Longrightarrow> s = a @ drop (length a) s"
    by (metis append_eq_conv_conj prefix_def)
  show ?thesis
    unfolding rmatch_tmpl_unf
    using pre by (auto simp: rmatch_dots_lit [OF b] prefix_def simp del: rmatch.simps)
qed

lemma rmatch_tmpl_sorted:
  "b \<noteq> [] \<Longrightarrow>
   sorted_wrt (\<lambda>u v. length (snd (snd u)) < length (snd (snd v)))
     (rmatch False (Seq (lit a) (Seq (Star Dot) (lit b))) (g, p, s))"
  unfolding rmatch_tmpl_unf
  by (simp add: rmatch_dots_lit_sorted del: rmatch.simps)

lemma occurs_at_0: "occurs_at T s 0 = (\<exists>m. T m \<and> prefix m s)"
  by (simp add: occurs_at_def)

lemma occurs_at_Suc: "occurs_at T (c # cs) (Suc i) = occurs_at T cs i"
  by (simp add: occurs_at_def)

lemma occurs_at_Nil: "occurs_at T [] i = (i = 0 \<and> (\<exists>m. T m \<and> prefix m []))"
  by (auto simp: occurs_at_def)

lemma first_match_here:
  "T m \<Longrightarrow> prefix m s \<Longrightarrow> (\<forall>m'. T m' \<and> prefix m' s \<longrightarrow> length m' \<le> length m) \<Longrightarrow>
   first_match T s m"
  unfolding first_match_def by (rule exI [of _ 0]) simp

lemma first_match_later:
  assumes no: "\<not> occurs_at T (c # cs) 0" and fm: "first_match T cs m"
  shows "first_match T (c # cs) m"
proof -
  from fm obtain i where i: "i \<le> length cs" "T m" "prefix m (drop i cs)"
      "\<forall>j<i. \<not> occurs_at T cs j"
      "\<forall>m'. T m' \<and> prefix m' (drop i cs) \<longrightarrow> length m' \<le> length m"
    unfolding first_match_def by blast
  have "\<not> occurs_at T (c # cs) j" if "j < Suc i" for j
  proof (cases j)
    case 0
    with no show ?thesis by simp
  next
    case (Suc k)
    with that i(4) show ?thesis by (simp add: occurs_at_Suc)
  qed
  with i show ?thesis
    unfolding first_match_def by (intro exI [of _ "Suc i"]) simp
qed

lemma not_occurs_later:
  assumes no: "\<not> occurs_at T (c # cs) 0" and rest: "\<forall>i. \<not> occurs_at T cs i"
  shows "\<not> occurs_at T (c # cs) i"
proof (cases i)
  case 0
  with no show ?thesis by simp
next
  case (Suc k)
  with rest show ?thesis by (simp add: occurs_at_Suc)
qed

lemma re_search_from_first:
  assumes emp: "\<And>p s. (rmatch False r ([], p, s) = []) = (\<not> (\<exists>m. T m \<and> prefix m s))"
    and hd: "\<And>p s g p' s' rest. rmatch False r ([], p, s) = (g, p', s') # rest \<Longrightarrow>
        length s' \<le> length s \<and> T (take (length s - length s') s)
        \<and> (\<forall>m. T m \<and> prefix m s \<longrightarrow> length m \<le> length s - length s')"
  shows "case re_search_from False r p s of
           None \<Rightarrow> (\<forall>i. \<not> occurs_at T s i)
         | Some (g, m) \<Rightarrow> first_match T s m"
proof (induction s arbitrary: p)
  case Nil
  show ?case
  proof (cases "rmatch False r ([], p, [])")
    case Nil
    with emp [of p "[]"] show ?thesis by (simp add: occurs_at_Nil)
  next
    case (Cons st rest)
    obtain g p' s' where st: "st = (g, p', s')" by (cases st)
    from hd [of p "[]" g p' s' rest] Cons st have "T []" by simp
    then have "first_match T [] []" by (intro first_match_here) simp_all
    with Cons st show ?thesis by simp
  qed
next
  case (Cons c cs)
  show ?case
  proof (cases "rmatch False r ([], p, c # cs)")
    case Nil
    with emp [of p "c # cs"] have no: "\<not> occurs_at T (c # cs) 0" by (simp add: occurs_at_0)
    have eq: "re_search_from False r p (c # cs) = re_search_from False r (Some c) cs"
      using Nil by simp
    show ?thesis
    proof (cases "re_search_from False r (Some c) cs")
      case None
      with Cons.IH [of "Some c"] have "\<forall>i. \<not> occurs_at T cs i" by simp
      with no have "\<forall>i. \<not> occurs_at T (c # cs) i" using not_occurs_later by blast
      with eq None show ?thesis by simp
    next
      case (Some gm)
      obtain g m where gm: "gm = (g, m)" by (cases gm)
      with Some Cons.IH [of "Some c"] have "first_match T cs m" by simp
      with no have "first_match T (c # cs) m" by (rule first_match_later)
      with eq Some gm show ?thesis by simp
    qed
  next
    case (Cons st rest)
    obtain g p' s' where st: "st = (g, p', s')" by (cases st)
    let ?m = "take (length (c # cs) - length s') (c # cs)"
    from hd [of p "c # cs" g p' s' rest] Cons st
    have h: "T ?m" "\<forall>m. T m \<and> prefix m (c # cs) \<longrightarrow> length m \<le> length (c # cs) - length s'"
      "length s' \<le> length (c # cs)"
      by simp_all
    have "first_match T (c # cs) ?m"
    proof (intro first_match_here)
      show "T ?m" by (rule h(1))
      show "prefix ?m (c # cs)" by (rule take_is_prefix)
      show "\<forall>m'. T m' \<and> prefix m' (c # cs) \<longrightarrow> length m' \<le> length ?m"
        using h(2,3) by (simp del: length_Cons)
    qed
    moreover have "re_search_from False r p (c # cs) = Some (g, ?m)"
      using Cons st by simp
    ultimately show ?thesis by simp
  qed
qed

lemma tmpl_emp:
  assumes b: "b \<noteq> []"
  shows "(rmatch False (Seq (lit a) (Seq (Star Dot) (lit b))) ([], p, s) = [])
     = (\<not> (\<exists>m. template_instance a b m \<and> prefix m s))"
proof -
  have "(rmatch False (Seq (lit a) (Seq (Star Dot) (lit b))) ([], p, s) = [])
      = (set (rmatch False (Seq (lit a) (Seq (Star Dot) (lit b))) ([], p, s)) = {})"
    by (simp del: rmatch.simps)
  also have "\<dots> = (\<not> (\<exists>s' x. newline \<notin> set x \<and> s = a @ x @ b @ s'))"
    unfolding rmatch_tmpl_set [OF b] by blast
  also have "\<dots> = (\<not> (\<exists>m. template_instance a b m \<and> prefix m s))"
    unfolding template_instance_def prefix_def by (metis append.assoc)
  finally show ?thesis .
qed

lemma tmpl_hd:
  assumes b: "b \<noteq> []"
    and r: "rmatch False (Seq (lit a) (Seq (Star Dot) (lit b))) ([], p, s) = (g, p', s') # rest"
  shows "length s' \<le> length s \<and> template_instance a b (take (length s - length s') s)
        \<and> (\<forall>m. template_instance a b m \<and> prefix m s \<longrightarrow> length m \<le> length s - length s')"
proof -
  let ?R = "rmatch False (Seq (lit a) (Seq (Star Dot) (lit b))) ([], p, s)"
  have "(g, p', s') \<in> set ?R" by (simp only: r list.set_intros)
  then obtain x where x: "newline \<notin> set x" "s = a @ x @ b @ s'"
    unfolding rmatch_tmpl_set [OF b] by blast
  then have len: "length s' \<le> length s" and tk: "take (length s - length s') s = a @ x @ b"
    by simp_all
  have inst: "template_instance a b (take (length s - length s') s)"
    unfolding tk template_instance_def using x(1) by blast
  have longest: "length m \<le> length s - length s'"
    if m: "template_instance a b m" "prefix m s" for m
  proof -
    from m obtain y s'' where y: "newline \<notin> set y" "m = a @ y @ b" "s = m @ s''"
      unfolding template_instance_def prefix_def by blast
    then have "(([]::string list), Some (last b), s'') \<in> set ?R"
      unfolding rmatch_tmpl_set [OF b] by auto
    then have "(([]::string list), Some (last b), s'') = (g, p', s')
        \<or> ([], Some (last b), s'') \<in> set rest"
      by (simp only: r set_simps insert_iff)
    moreover have "\<forall>v \<in> set rest. length s' < length (snd (snd v))"
      using rmatch_tmpl_sorted [OF b, of a "[]" p s] unfolding r by simp
    ultimately have "length s' \<le> length s''" by auto
    with y(3) show ?thesis by simp
  qed
  from len inst longest show ?thesis by blast
qed

lemma lit_emp:
  "(rmatch False (lit w) ([], p, s) = []) = (\<not> (\<exists>m. m = w \<and> prefix m s))"
  by (simp add: rmatch_lit)

lemma lit_hd:
  assumes r: "rmatch False (lit w) ([], p, s) = (g, p', s') # rest"
  shows "length s' \<le> length s \<and> take (length s - length s') s = w
        \<and> (\<forall>m. m = w \<and> prefix m s \<longrightarrow> length m \<le> length s - length s')"
proof -
  from r have pre: "prefix w s" and s': "s' = drop (length w) s"
    by (simp_all add: rmatch_lit split: if_splits)
  from pre have "length w \<le> length s" by (rule prefix_length_le)
  moreover from pre have "take (length w) s = w"
    by (metis append_eq_conv_conj prefix_def)
  ultimately show ?thesis using s' by simp
qed

lemma first_match_occurs: "first_match T s m \<Longrightarrow> \<exists>i. occurs_at T s i"
  unfolding first_match_def occurs_at_def by blast

lemma search_part:
  assumes emp: "\<And>p s. (rmatch False r ([], p, s) = []) = (\<not> (\<exists>m. T m \<and> prefix m s))"
    and hd: "\<And>p s g p' s' rest. rmatch False r ([], p, s) = (g, p', s') # rest \<Longrightarrow>
        length s' \<le> length s \<and> T (take (length s - length s') s)
        \<and> (\<forall>m. T m \<and> prefix m s \<longrightarrow> length m \<le> length s - length s')"
  shows "map trigger_timing
           (case re_search False r s of None \<Rightarrow> []
            | Some (g, m) \<Rightarrow> [\<lparr>trigger_condition = m, trigger_timing = l\<rparr>])
         = (if \<exists>i. occurs_at T s i then [l] else [])
       \<and> (\<forall>e \<in> set (case re_search False r s of None \<Rightarrow> []
                       | Some (g, m) \<Rightarrow> [\<lparr>trigger_condition = m, trigger_timing = l\<rparr>]).
            trigger_timing e = l \<and> first_match T s (trigger_condition e))"
proof (cases "re_search False r s")
  case None
  with re_search_from_first [where r = r and T = T and p = None and s = s, OF emp hd] have "\<forall>i. \<not> occurs_at T s i"
    by (simp add: re_search_def)
  with None show ?thesis by simp
next
  case (Some gm)
  obtain g m where gm: "gm = (g, m)" by (cases gm)
  with Some re_search_from_first [where r = r and T = T and p = None and s = s, OF emp hd] have fm: "first_match T s m"
    by (simp add: re_search_def)
  then have "\<exists>i. occurs_at T s i" by (rule first_match_occurs)
  with fm Some gm show ?thesis by simp
qed

lemma template_of_when: "template_of ''when'' = template_instance ''when '' '' enters''"
  by (rule ext) (simp add: template_of_def)

lemma template_of_whenever: "template_of ''whenever'' = template_instance ''whenever '' '' dies''"
  by (rule ext) (simp add: template_of_def)

lemma template_of_at: "template_of ''at'' = (\<lambda>m. m = ''at the beginning'')"
  by (rule ext) (simp add: template_of_def)

lemma when_part:
  "map trigger_timing
     (case re_search False when_re s of None \<Rightarrow> []
      | Some (g, m) \<Rightarrow> [\<lparr>trigger_condition = m, trigger_timing = ''when''\<rparr>])
     = (if \<exists>i. occurs_at (template_of ''when'') s i then [''when''] else [])
   \<and> (\<forall>e \<in> set (case re_search False when_re s of None \<Rightarrow> []
                  | Some (g, m) \<Rightarrow> [\<lparr>trigger_condition = m, trigger_timing = ''when''\<rparr>]).
        trigger_timing e = ''when'' \<and> first_match (template_of ''when'') s (trigger_condition e))"
  unfolding when_re_def template_of_when
  by (rule search_part) (rule tmpl_emp, simp, rule tmpl_hd, simp, assumption)

lemma dies_part:
  "map trigger_timing
     (case re_search False dies_re s of None \<Rightarrow> []
      | Some (g, m) \<Rightarrow> [\<lparr>trigger_condition = m, trigger_timing = ''whenever''\<rparr>])
     = (if \<exists>i. occurs_at (template_of ''whenever'') s i then [''whenever''] else [])
   \<and> (\<forall>e \<in> set (case re_search False dies_re s of None \<Rightarrow> []
                  | Some (g, m) \<Rightarrow> [\<lparr>trigger_condition = m, trigger_timing = ''whenever''\<rparr>]).
        trigger_timing e = ''whenever''
        \<and> first_match (template_of ''whenever'') s (trigger_condition e))"
  unfolding dies_re_def template_of_whenever
  by (rule search_part) (rule tmpl_emp, simp, rule tmpl_hd, simp, assumption)

lemma beginning_part:
  "map trigger_timing
     (case re_search False beginning_re s of None \<Rightarrow> []
      | Some (g, m) \<Rightarrow> [\<lparr>trigger_condition = m, trigger_timing = ''at''\<rparr>])
     = (if \<exists>i. occurs_at (template_of ''at'') s i then [''at''] else [])
   \<and> (\<forall>e \<in> set (case re_search False beginning_re s of None \<Rightarrow> []
                  | Some (g, m) \<Rightarrow> [\<lparr>trigger_condition = m, trigger_timing = ''at''\<rparr>]).
        trigger_timing e = ''at'' \<and> first_match (template_of ''at'') s (trigger_condition e))"
  unfolding beginning_re_def template_of_at
  by (rule search_part) (rule lit_emp, rule lit_hd, assumption)

lemma extract_triggers_parts:
  "extract_triggers text =
     (case re_search False when_re (lower text) of None \<Rightarrow> []
      | Some (g, m) \<Rightarrow> [\<lparr>trigger_condition = m, trigger_timing = ''when''\<rparr>])
     @ (case re_search False dies_re (lower text) of None \<Rightarrow> []
      | Some (g, m) \<Rightarrow> [\<lparr>trigger_condition = m, trigger_timing = ''whenever''\<rparr>])
     @ (case re_search False beginning_re (lower text) of None \<Rightarrow> []
      | Some (g, m) \<Rightarrow> [\<lparr>trigger_condition = m, trigger_timing = ''at''\<rparr>])"
  by (simp add: extract_triggers_def trigger_patterns_def)

text \<open>
  C6. Each of the three templates is searched on its own in the lowercased text: the
  timings of the result are those of the templates that occur somewhere in it, in the
  order when, whenever, at, one entry for each; the condition of an entry is the first
  match of its template (the match at the first position where the template occurs, and
  the longest there); so there are at most three entries, however often a template occurs.
\<close>

theorem extract_triggers_first_occurrence:
  "map trigger_timing (extract_triggers text)
     = filter (\<lambda>timing. \<exists>i. occurs_at (template_of timing) (lower text) i)
         [''when'', ''whenever'', ''at'']
   \<and> (\<forall>e \<in> set (extract_triggers text).
        first_match (template_of (trigger_timing e)) (lower text) (trigger_condition e))
   \<and> length (extract_triggers text) \<le> 3"
proof -
  let ?s = "lower text"
  let ?w = "case re_search False when_re ?s of None \<Rightarrow> []
      | Some (g, m) \<Rightarrow> [\<lparr>trigger_condition = m, trigger_timing = ''when''\<rparr>]"
  let ?d = "case re_search False dies_re ?s of None \<Rightarrow> []
      | Some (g, m) \<Rightarrow> [\<lparr>trigger_condition = m, trigger_timing = ''whenever''\<rparr>]"
  let ?b = "case re_search False beginning_re ?s of None \<Rightarrow> []
      | Some (g, m) \<Rightarrow> [\<lparr>trigger_condition = m, trigger_timing = ''at''\<rparr>]"
  have e: "extract_triggers text = ?w @ ?d @ ?b" by (rule extract_triggers_parts)
  note w = when_part [of ?s] and d = dies_part [of ?s] and b = beginning_part [of ?s]
  have timings: "map trigger_timing (extract_triggers text)
     = filter (\<lambda>timing. \<exists>i. occurs_at (template_of timing) ?s i) [''when'', ''whenever'', ''at'']"
    unfolding e map_append
    by (simp only: conjunct1 [OF w] conjunct1 [OF d] conjunct1 [OF b]) simp
  have conds: "\<forall>e \<in> set (extract_triggers text).
        first_match (template_of (trigger_timing e)) ?s (trigger_condition e)"
  proof
    fix x assume "x \<in> set (extract_triggers text)"
    then have "x \<in> set ?w \<or> x \<in> set ?d \<or> x \<in> set ?b"
      unfolding e by (simp only: set_append Un_iff)
    then show "first_match (template_of (trigger_timing x)) ?s (trigger_condition x)"
    proof (elim disjE)
      assume "x \<in> set ?w"
      with conjunct2 [OF w] have "trigger_timing x = ''when''"
        "first_match (template_of ''when'') ?s (trigger_condition x)" by blast+
      then show ?thesis by (simp only:)
    next
      assume "x \<in> set ?d"
      with conjunct2 [OF d] have "trigger_timing x = ''whenever''"
        "first_match (template_of ''whenever'') ?s (trigger_condition x)" by blast+
      then show ?thesis by (simp only:)
    next
      assume "x \<in> set ?b"
      with conjunct2 [OF b] have "trigger_timing x = ''at''"
        "first_match (template_of ''at'') ?s (trigger_condition x)" by blast+
      then show ?thesis by (simp only:)
    qed
  qed
  have "length (map trigger_timing (extract_triggers text)) \<le> 3"
    unfolding timings by (rule order_trans [OF length_filter_le]) simp
  then have len: "length (extract_triggers text) \<le> 3" by simp
  from timings conds len show ?thesis by blast
qed

theorem extract_triggers_first_occurrence_witness:
  "extract_triggers ''When Karn enters, when it enters again. At the beginning of combat, at the beginning.''
     = [\<lparr>trigger_condition = ''when karn enters, when it enters'', trigger_timing = ''when''\<rparr>,
        \<lparr>trigger_condition = ''at the beginning'', trigger_timing = ''at''\<rparr>]
   \<and> first_match (template_of ''when'')
        (lower ''When Karn enters, when it enters again. At the beginning of combat, at the beginning.'')
        ''when karn enters, when it enters''
   \<and> first_match (template_of ''at'')
        (lower ''When Karn enters, when it enters again. At the beginning of combat, at the beginning.'')
        ''at the beginning''
   \<and> \<not> (\<exists>i. occurs_at (template_of ''whenever'')
        (lower ''When Karn enters, when it enters again. At the beginning of combat, at the beginning.'') i)"
proof -
  let ?t = "''When Karn enters, when it enters again. At the beginning of combat, at the beginning.''"
  have e: "extract_triggers ?t
     = [\<lparr>trigger_condition = ''when karn enters, when it enters'', trigger_timing = ''when''\<rparr>,
        \<lparr>trigger_condition = ''at the beginning'', trigger_timing = ''at''\<rparr>]"
    by code_simp
  note t = extract_triggers_first_occurrence [of ?t]
  from t have "\<forall>e \<in> set (extract_triggers ?t).
        first_match (template_of (trigger_timing e)) (lower ?t) (trigger_condition e)"
    by (rule conjunct1 [OF conjunct2])
  then have f: "first_match (template_of ''when'') (lower ?t) ''when karn enters, when it enters''"
    "first_match (template_of ''at'') (lower ?t) ''at the beginning''"
    unfolding e by simp_all
  from t have "[''when'', ''at'']
     = filter (\<lambda>timing. \<exists>i. occurs_at (template_of timing) (lower ?t) i)
         [''when'', ''whenever'', ''at'']"
    unfolding e by simp
  then have n: "\<not> (\<exists>i. occurs_at (template_of ''whenever'') (lower ?t) i)"
    by (simp split: if_splits)
  from e f n show ?thesis by blast
qed

end
